theory Spec2Isabelle
  imports Complex_Main
begin

section \<open>ABS cash-flow simulation: amortization, aggregation, tranches and IRR\<close>

text \<open>
  The script \<^verbatim>\<open>ABS.PY\<close> computes with double-precision numbers. This development reads
  every such number as the real number it stands for and every arithmetic operation as the
  exact one, so each result below is a statement about the script's arithmetic before
  rounding. Python's \<^verbatim>\<open>int\<close> is \<open>int\<close> or, for loop counts, \<open>nat\<close>.
\<close>

subsection \<open>The level payment\<close>

text \<open>
  \<^verbatim>\<open>
  def monthly_payment(principal, annual_rate, months):
      r = annual_rate / 12
      return principal * r / (1 - (1 + r) ** (-months))
  \<close>
  HOL's division by zero is \<open>0\<close>; the script's is not. \<open>None\<close> stands for a call that
  has no finite result: a zero base raised to a negative exponent, or a zero denominator
  (\<^verbatim>\<open>ZeroDivisionError\<close> on Python floats, \<^verbatim>\<open>inf\<close> or \<^verbatim>\<open>nan\<close> on NumPy scalars).
\<close>

definition monthly_payment :: "real \<Rightarrow> real \<Rightarrow> int \<Rightarrow> real option" where
  "monthly_payment principal' annual_rate months =
     (let r = annual_rate / 12 in
      if 1 + r = 0 \<and> 0 < months then None
      else (let d = 1 - (1 + r) powi (- months) in
            if d = 0 then None else Some (principal' * r / d)))"

subsection \<open>The month-by-month schedule of one loan\<close>

text \<open>
  One iteration of the inner loop, as a row of the values it computes: \<open>cf\<close> is the
  entry stored in \<^verbatim>\<open>loan_cashflows[i, m]\<close>, \<open>interest_part\<close> and \<open>principal_part\<close>
  are \<^verbatim>\<open>interest_payment\<close> and \<^verbatim>\<open>principal_payment\<close> at the end of the iteration,
  \<open>adjusted\<close> tells whether the branch \<^verbatim>\<open>if balance < principal_payment\<close> was taken,
  \<open>balance_end\<close> and \<open>pay_end\<close> are the variables \<^verbatim>\<open>balance\<close> and \<^verbatim>\<open>pay\<close> that the
  next iteration starts from.
\<close>

record month =
  cf :: real
  interest_part :: real
  principal_part :: real
  adjusted :: bool
  balance_end :: real
  pay_end :: real

definition loop_body :: "real \<Rightarrow> real \<Rightarrow> real \<Rightarrow> month" where
  "loop_body r balance pay =
     (let interest_payment = balance * r;
          principal_payment = pay - interest_payment
      in if balance < principal_payment
         then (let principal_payment = balance;
                   pay = principal_payment + interest_payment
               in \<lparr>cf = pay, interest_part = interest_payment,
                   principal_part = principal_payment, adjusted = True,
                   balance_end = balance - principal_payment, pay_end = pay\<rparr>)
         else \<lparr>cf = pay, interest_part = interest_payment,
                principal_part = principal_payment, adjusted = False,
                balance_end = balance - principal_payment, pay_end = pay\<rparr>)"

text \<open>\<^verbatim>\<open>for m in range(term)\<close>: the rows of the months still to run.\<close>

fun amortize :: "nat \<Rightarrow> real \<Rightarrow> real \<Rightarrow> real \<Rightarrow> month list" where
  "amortize 0 r balance pay = []"
| "amortize (Suc k) r balance pay =
     (let row = loop_body r balance pay
      in row # amortize k r (balance_end row) (pay_end row))"


text \<open>
  The body of \<^verbatim>\<open>for i in range(num_loans)\<close> for one loan: its payment from
  \<open>monthly_payment\<close>, then the loop over \<open>term\<close> months starting from the loan amount.
\<close>

definition loan_months :: "nat \<Rightarrow> real \<Rightarrow> real \<Rightarrow> month list option" where
  "loan_months term amount rate =
     (case monthly_payment amount rate (int term) of
        None \<Rightarrow> None
      | Some pay \<Rightarrow> Some (amortize term (rate / 12) amount pay))"

subsection \<open>The portfolio: schedules of all loans and their aggregation\<close>

text \<open>
  \<^verbatim>\<open>
  payments = np.array([monthly_payment(loan_amounts[i], interest_rates[i], term)
                       for i in range(num_loans)])
  loan_cashflows = np.zeros((num_loans, term))
  for i in range(num_loans):
      balance = loan_amounts[i]; r = interest_rates[i] / 12; pay = payments[i]
      for m in range(term): ...
  \<close>
  Row \<open>i\<close> of the matrix is the \<open>cf\<close> column of loan \<open>i\<close>. The result is \<open>None\<close>
  when an index is out of range (\<^verbatim>\<open>IndexError\<close>) or a payment has no finite value.
\<close>

definition loan_cashflows :: "nat \<Rightarrow> nat \<Rightarrow> real list \<Rightarrow> real list \<Rightarrow> real list list option" where
  "loan_cashflows num_loans term loan_amounts interest_rates =
     those (map (\<lambda>i. if i < length loan_amounts \<and> i < length interest_rates
                      then map_option (map cf)
                             (loan_months term (loan_amounts ! i) (interest_rates ! i))
                      else None)
                [0..<num_loans])"

text \<open>
  \<^verbatim>\<open>loan_cashflows.sum(axis=0)\<close> on a matrix whose rows have \<open>term\<close> entries: entry
  \<open>m\<close> is the sum of column \<open>m\<close>.
\<close>

definition sum_axis0 :: "nat \<Rightarrow> real list list \<Rightarrow> real list" where
  "sum_axis0 term rows = map (\<lambda>m. sum_list (map (\<lambda>row. row ! m) rows)) [0..<term]"

record totals =
  portfolio_cashflow :: "real list"
  total_cash :: real
  total_principal :: real

text \<open>
  \<^verbatim>\<open>
  portfolio_cashflow = loan_cashflows.sum(axis=0)
  total_cash = portfolio_cashflow.sum()
  total_principal = loan_amounts.sum()
  \<close>
\<close>

definition aggregate :: "nat \<Rightarrow> real list \<Rightarrow> real list list \<Rightarrow> totals" where
  "aggregate term loan_amounts rows =
     (let pc = sum_axis0 term rows
      in \<lparr>portfolio_cashflow = pc, total_cash = sum_list pc,
          total_principal = sum_list loan_amounts\<rparr>)"

subsection \<open>Tranches\<close>

definition senior_pct :: real where "senior_pct = 0.70"
definition mezzanine_pct :: real where "mezzanine_pct = 0.20"
definition equity_pct :: real where "equity_pct = 0.10"

record tranche =
  investment :: real
  tranche_total_cash :: real
  tranche_cf :: "real list"

text \<open>
  For the senior tranche (the other two alike, with their own fraction):
  \<^verbatim>\<open>
  senior_investment = total_principal * senior_pct
  senior_total_cash = total_cash * senior_pct
  senior_cf = np.full(term, senior_total_cash / term)
  \<close>
\<close>

definition tranche_of :: "nat \<Rightarrow> real \<Rightarrow> real \<Rightarrow> real \<Rightarrow> tranche" where
  "tranche_of term tp tc pct =
     \<lparr>investment = tp * pct, tranche_total_cash = tc * pct,
      tranche_cf = replicate term (tc * pct / real term)\<rparr>"

subsection \<open>Internal rate of return\<close>

text \<open>
  \<^verbatim>\<open>
  def calculate_irr(cf_series, initial_investment):
      irr_value = npf.irr([-initial_investment] + list(cf_series))
      return 0 if np.isnan(irr_value) else irr_value
  \<close>
  \<^verbatim>\<open>npf.irr\<close> belongs to the library numpy_financial, not to the script: it is the
  parameter \<open>npf_irr\<close>. A number that may be not-a-number is a \<open>real option\<close>, \<open>None\<close>
  being NaN.
\<close>

definition calculate_irr :: "(real list \<Rightarrow> real option) \<Rightarrow> real list \<Rightarrow> real \<Rightarrow> real option" where
  "calculate_irr npf_irr cf_series initial_investment =
     (let irr_value = npf_irr ((- initial_investment) # cf_series)
      in case irr_value of None \<Rightarrow> Some 0 | Some v \<Rightarrow> Some v)"

text \<open>
  Modelled from the spec: what \<^verbatim>\<open>npf.irr\<close>, which is not in the repository, looks for.
  The net present value of the signed cash flows \<open>values\<close> at a rate is the sum of
  \<open>values[t] / (1 + rate) ^ t\<close>; a solution is a rate above \<open>-1\<close> at which it is zero.
\<close>

definition npv :: "real \<Rightarrow> real list \<Rightarrow> real" where
  "npv rate values = sum_list (map (\<lambda>t. values ! t / (1 + rate) ^ t) [0..<length values])"

definition irr_roots :: "real list \<Rightarrow> real set" where
  "irr_roots values = {rate. - 1 < rate \<and> npv rate values = 0}"

subsection \<open>The random source and the whole script\<close>

text \<open>
  NumPy's global random state is not in the repository either. The script uses two of its
  operations: \<^verbatim>\<open>np.random.seed(k)\<close>, which replaces the state, and
  \<^verbatim>\<open>np.random.uniform(lo, hi, n)\<close>, which returns \<open>n\<close> numbers and advances the state.
\<close>

record 's random_source =
  np_random_seed :: "nat \<Rightarrow> 's \<Rightarrow> 's"
  np_random_uniform :: "real \<Rightarrow> real \<Rightarrow> nat \<Rightarrow> 's \<Rightarrow> real list \<times> 's"

definition num_loans :: nat where "num_loans = 100"
definition term_months :: nat where "term_months = 36"

text \<open>
  \<^verbatim>\<open>
  np.random.seed(42)
  loan_amounts = np.random.uniform(10_000, 50_000, num_loans)
  interest_rates = np.random.uniform(0.05, 0.15, num_loans)
  \<close>
  run from the state \<open>s0\<close> the process starts with.
\<close>

definition draw_portfolio :: "'s random_source \<Rightarrow> 's \<Rightarrow> real list \<times> real list" where
  "draw_portfolio rng s0 =
     (let s1 = np_random_seed rng 42 s0;
          (loan_amounts, s2) = np_random_uniform rng 10000 50000 num_loans s1;
          (interest_rates, s3) = np_random_uniform rng 0.05 0.15 num_loans s2
      in (loan_amounts, interest_rates))"

record report =
  rep_loan_amounts :: "real list"
  rep_interest_rates :: "real list"
  rep_totals :: totals
  rep_senior :: tranche
  rep_mezzanine :: tranche
  rep_equity :: tranche
  irr_senior :: "real option"
  irr_mezzanine :: "real option"
  irr_equity :: "real option"

text \<open>The script up to its printed and plotted values.\<close>

definition script :: "'s random_source \<Rightarrow> (real list \<Rightarrow> real option) \<Rightarrow> 's \<Rightarrow> report option" where
  "script rng npf_irr s0 =
     (let (loan_amounts, interest_rates) = draw_portfolio rng s0
      in case loan_cashflows num_loans term_months loan_amounts interest_rates of
           None \<Rightarrow> None
         | Some rows \<Rightarrow>
             (let t = aggregate term_months loan_amounts rows;
                  senior = tranche_of term_months (total_principal t) (total_cash t) senior_pct;
                  mezzanine = tranche_of term_months (total_principal t) (total_cash t) mezzanine_pct;
                  equity = tranche_of term_months (total_principal t) (total_cash t) equity_pct
              in Some \<lparr>rep_loan_amounts = loan_amounts, rep_interest_rates = interest_rates,
                       rep_totals = t, rep_senior = senior, rep_mezzanine = mezzanine,
                       rep_equity = equity,
                       irr_senior = calculate_irr npf_irr (tranche_cf senior) (investment senior),
                       irr_mezzanine =
                         calculate_irr npf_irr (tranche_cf mezzanine) (investment mezzanine),
                       irr_equity = calculate_irr npf_irr (tranche_cf equity) (investment equity)\<rparr>))"

text \<open>
  Modelled from the spec: the two properties of NumPy's random source, which is not in the
  repository, that the script relies on. \<open>reseeds\<close>: seeding replaces the state by one
  that depends on the seed only. \<open>uniform_in_range\<close>: a draw of \<open>n\<close> numbers from
  \<open>[lo, hi)\<close> returns \<open>n\<close> numbers of that range.
\<close>

definition reseeds :: "'s random_source \<Rightarrow> bool" where
  "reseeds rng \<longleftrightarrow> (\<forall>k s s'. np_random_seed rng k s = np_random_seed rng k s')"

definition uniform_in_range :: "'s random_source \<Rightarrow> bool" where
  "uniform_in_range rng \<longleftrightarrow>
     (\<forall>lo hi n s. lo < hi \<longrightarrow>
        length (fst (np_random_uniform rng lo hi n s)) = n
        \<and> (\<forall>x \<in> set (fst (np_random_uniform rng lo hi n s)). lo \<le> x \<and> x < hi))"

text \<open>A small deterministic source with both properties, for a concrete instance.\<close>

definition example_source :: "nat random_source" where
  "example_source =
     \<lparr>np_random_seed = (\<lambda>k s. k),
      np_random_uniform =
        (\<lambda>lo hi n s. (map (\<lambda>i. lo + (hi - lo) * real ((s + i) mod 10) / 10) [0..<n], s + n))\<rparr>"

subsection \<open>Closed form of a level-payment schedule\<close>

text \<open>
  Two definitions used in the proofs only. \<open>outstanding pay r j\<close> is the value, one
  period before the first of them, of \<open>j\<close> payments of \<open>pay\<close> at the periodic rate
  \<open>r\<close>; \<open>level_row pay r j\<close> is the row of a month that starts with \<open>j\<close> such
  payments still to make.
\<close>

definition outstanding :: "real \<Rightarrow> real \<Rightarrow> nat \<Rightarrow> real" where
  "outstanding pay r j = pay * (1 - inverse ((1 + r) ^ j)) / r"



section \<open>Properties\<close>

subsection \<open>Level payment\<close>

lemma annuity_denominator_pos:
  fixes r :: real
  assumes "0 < r" "0 < months"
  shows "0 < 1 - (1 + r) powi (- months)"
proof -
  obtain n where n: "months = int (Suc n)"
    using assms(2) by (metis Suc_pred' pos_int_cases)
  have "1 < (1 + r) ^ Suc n"
    using assms(1) by (intro one_less_power) simp_all
  then have "inverse ((1 + r) ^ Suc n) < 1"
    by (rule inverse_less_1_iff[THEN iffD2, OF disjI2])
  then show ?thesis
    unfolding n power_int_minus power_int_of_nat by simp
qed






subsection \<open>A loan paid with its level payment\<close>

lemma outstanding_0 [simp]: "outstanding pay r 0 = 0"
  by (simp add: outstanding_def)





lemma payment_amortizes:
  assumes "0 < annual_rate" "0 < n"
  shows "\<exists>pay. monthly_payment amount annual_rate (int n) = Some pay
           \<and> amount = outstanding pay (annual_rate / 12) n
           \<and> pay = amount * (annual_rate / 12) / (1 - inverse ((1 + annual_rate / 12) ^ n))"
proof -
  let ?r = "annual_rate / 12"
  let ?d = "1 - (1 + ?r) powi (- int n)"
  have r: "0 < ?r" using assms(1) by simp
  have d: "0 < ?d"
    using assms by (intro annuity_denominator_pos) simp_all
  have d': "?d = 1 - inverse ((1 + ?r) ^ n)"
    by (simp add: power_int_minus)
  have nz: "1 + ?r \<noteq> 0" using r by (simp add: add_pos_pos less_imp_neq[symmetric])
  have "monthly_payment amount annual_rate (int n) = Some (amount * ?r / ?d)"
    using d nz by (simp add: monthly_payment_def Let_def)
  moreover have "x = (x * y / z) * z / y" if "y \<noteq> 0" "z \<noteq> 0" for x y z :: real
    using that by simp
  from this[of ?r ?d amount] have "amount = (amount * ?r / ?d) * ?d / ?r"
    using d r by fastforce
  then have "amount = outstanding (amount * ?r / ?d) ?r n"
    unfolding outstanding_def d' .
  ultimately show ?thesis unfolding d' by blast
qed






lemma length_amortize [simp]: "length (amortize k r b p) = k"
  by (induction k arbitrary: b p) (simp_all add: Let_def)







subsection \<open>The adjustment branch\<close>

lemma loop_body_adjusted:
  assumes "balance < pay - balance * r"
  shows "loop_body r balance pay =
           \<lparr>cf = balance + balance * r, interest_part = balance * r,
            principal_part = balance, adjusted = True, balance_end = 0,
            pay_end = balance + balance * r\<rparr>"
  using assms by (simp add: loop_body_def Let_def)

lemma loop_body_balance_nonneg: "0 \<le> balance_end (loop_body r balance pay)"
  by (simp add: loop_body_def Let_def)



lemma zero_balance_rows:
  assumes "0 \<le> pay"
  shows "row \<in> set (amortize k r 0 pay) \<Longrightarrow>
           cf row = 0 \<and> balance_end row = 0 \<and> pay_end row = 0"
  using assms
proof (induction k arbitrary: pay)
  case 0
  then show ?case by simp
next
  case (Suc k)
  have b: "cf (loop_body r 0 pay) = 0 \<and> balance_end (loop_body r 0 pay) = 0
             \<and> pay_end (loop_body r 0 pay) = 0"
    using Suc.prems(2) by (simp add: loop_body_def Let_def)
  show ?case
  proof (cases "row = loop_body r 0 pay")
    case True
    then show ?thesis using b by simp
  next
    case False
    then have "row \<in> set (amortize k r 0 0)"
      using Suc.prems(1) b by (simp add: Let_def)
    then show ?thesis
      by (rule Suc.IH) simp
  qed
qed

lemma loop_body_pay_nonneg:
  assumes "0 \<le> balance" "0 \<le> pay" "0 \<le> r"
  shows "0 \<le> pay_end (loop_body r balance pay)"
  using assms by (simp add: loop_body_def Let_def)

lemma zero_balance_stays:
  assumes "0 \<le> balance" "0 \<le> pay" "0 \<le> r"
    and "i < j" "j < n" "balance_end (amortize n r balance pay ! i) = 0"
  shows "cf (amortize n r balance pay ! j) = 0 \<and> balance_end (amortize n r balance pay ! j) = 0"
  using assms
proof (induction n arbitrary: balance pay i j)
  case 0
  then show ?case by simp
next
  case (Suc n)
  let ?row = "loop_body r balance pay"
  let ?rest = "amortize n r (balance_end ?row) (pay_end ?row)"
  have rows: "amortize (Suc n) r balance pay = ?row # ?rest"
    by (simp add: Let_def)
  obtain j' where j: "j = Suc j'" "j' < n"
    using Suc.prems(4,5) by (cases j) simp_all
  have p: "0 \<le> pay_end ?row"
    by (rule loop_body_pay_nonneg[OF Suc.prems(1-3)])
  show ?case
  proof (cases i)
    case 0
    then have "balance_end ?row = 0"
      using Suc.prems(6) rows by simp
    moreover have "?rest ! j' \<in> set ?rest"
      using j(2) by simp
    ultimately have "?rest ! j' \<in> set (amortize n r 0 (pay_end ?row))"
      by simp
    from zero_balance_rows[OF p this] show ?thesis
      unfolding rows j(1) by simp
  next
    case (Suc i')
    have "cf (?rest ! j') = 0 \<and> balance_end (?rest ! j') = 0"
    proof (rule Suc.IH[of "balance_end ?row" "pay_end ?row" i' j'])
      show "0 \<le> balance_end ?row" by (rule loop_body_balance_nonneg)
      show "0 \<le> pay_end ?row" by (rule p)
      show "0 \<le> r" by (rule Suc.prems(3))
      show "i' < j'" using Suc.prems(4) Suc j(1) by simp
      show "j' < n" by (rule j(2))
      show "balance_end (?rest ! i') = 0"
        using Suc.prems(6) unfolding rows Suc by simp
    qed
    then show ?thesis unfolding rows j(1) by simp
  qed
qed




text \<open>
  C10. When the adjustment branch is taken in a month (with a balance and a rate that are
  not negative), the following months start from the reduced payment, not from the
  original one: they run from balance 0 and payment \<open>balance + balance * r\<close>, and
  each of them records a payment of 0, keeps the balance at 0 and ends with a payment
  variable below the original. In any run from a non-negative balance, payment and rate,
  once the balance is 0 after some month, every later month records a payment of 0 and
  leaves the balance at 0.
\<close>

theorem adjusted_payment_persists:
  "(balance < pay - balance * r \<and> 0 \<le> balance \<and> 0 \<le> r \<longrightarrow>
      amortize (Suc k) r balance pay =
        loop_body r balance pay # amortize k r 0 (balance + balance * r)
      \<and> pay_end (loop_body r balance pay) = balance + balance * r
      \<and> (\<forall>row \<in> set (amortize k r 0 (balance + balance * r)).
            cf row = 0 \<and> balance_end row = 0 \<and> pay_end row < pay))
   \<and> (0 \<le> b0 \<and> 0 \<le> p0 \<and> 0 \<le> r0 \<and> i < j \<and> j < n
        \<and> balance_end (amortize n r0 b0 p0 ! i) = 0 \<longrightarrow>
        cf (amortize n r0 b0 p0 ! j) = 0 \<and> balance_end (amortize n r0 b0 p0 ! j) = 0)"
proof (intro conjI impI ballI)
  assume h: "balance < pay - balance * r \<and> 0 \<le> balance \<and> 0 \<le> r"
  then have g: "balance < pay - balance * r" by simp
  show "amortize (Suc k) r balance pay =
        loop_body r balance pay # amortize k r 0 (balance + balance * r)"
    by (simp add: Let_def loop_body_adjusted[OF g])
  show "pay_end (loop_body r balance pay) = balance + balance * r"
    by (simp add: loop_body_adjusted[OF g])
  have p: "0 \<le> balance + balance * r"
    using h by simp
  have lt: "0 < pay"
    using h p by linarith
  fix row
  assume "row \<in> set (amortize k r 0 (balance + balance * r))"
  from zero_balance_rows[OF p this] lt
  show "cf row = 0" and "balance_end row = 0" and "pay_end row < pay"
    by simp_all
next
  assume h: "0 \<le> b0 \<and> 0 \<le> p0 \<and> 0 \<le> r0 \<and> i < j \<and> j < n
        \<and> balance_end (amortize n r0 b0 p0 ! i) = 0"
  then have z: "cf (amortize n r0 b0 p0 ! j) = 0 \<and> balance_end (amortize n r0 b0 p0 ! j) = 0"
    by (intro zero_balance_stays[of b0 p0 r0 i j n]) simp_all
  show "cf (amortize n r0 b0 p0 ! j) = 0" using z by simp
  show "balance_end (amortize n r0 b0 p0 ! j) = 0" using z by simp
qed

theorem adjusted_payment_persists_witness:
  "(100::real) < 200 - 100 * 0.01 \<and> (0::real) \<le> 100 \<and> (0::real) \<le> 0.01
   \<and> map cf (amortize 3 0.01 100 200) = [101, 0, 0]
   \<and> map pay_end (amortize 3 0.01 100 200) = [101, 0, 0]
   \<and> map balance_end (amortize 3 0.01 100 200) = [0, 0, 0]
   \<and> (0::real) \<le> 200 \<and> (0::nat) < 2 \<and> (2::nat) < 3
   \<and> balance_end (amortize 3 0.01 100 200 ! 0) = 0
   \<and> cf (amortize 3 0.01 100 200 ! 2) = 0
   \<and> balance_end (amortize 3 0.01 100 200 ! 2) = 0"
  using adjusted_payment_persists
    [where balance = 100 and pay = 200 and r = "0.01" and k = 2
       and ?b0.0 = 100 and ?p0.0 = 200 and ?r0.0 = "0.01" and i = 0 and j = 2 and n = 3]
  by (simp add: eval_nat_numeral loop_body_def Let_def)

subsection \<open>Aggregation and tranches\<close>

lemma those_eq_Some: "those xs = Some ys \<longleftrightarrow> xs = map Some ys"
proof (induction xs arbitrary: ys)
  case Nil
  show ?case by auto
next
  case (Cons x xs)
  show ?case
    by (cases x; cases ys) (auto simp: Cons.IH split: option.splits)
qed

lemma loan_cashflows_rows:
  assumes "loan_cashflows num term loan_amounts interest_rates = Some rows"
  shows "length rows = num" and "\<forall>row \<in> set rows. length row = term"
proof -
  let ?f = "\<lambda>i. if i < length loan_amounts \<and> i < length interest_rates
                 then map_option (map cf)
                        (loan_months term (loan_amounts ! i) (interest_rates ! i))
                 else None"
  have m: "map ?f [0..<num] = map Some rows"
    using assms unfolding loan_cashflows_def those_eq_Some .
  then have "length (map ?f [0..<num]) = length (map Some rows)"
    by (rule arg_cong)
  then show len: "length rows = num" by simp
  show "\<forall>row \<in> set rows. length row = term"
  proof
    fix row
    assume "row \<in> set rows"
    then obtain i where i: "i < num" "rows ! i = row"
      using len by (auto simp: in_set_conv_nth)
    have "map ?f [0..<num] ! i = ?f ([0..<num] ! i)"
      using i(1) by (intro nth_map) simp
    moreover have "[0..<num] ! i = i"
      using i(1) by simp
    moreover have "map Some rows ! i = Some row"
      using i len by simp
    ultimately have "?f i = Some row"
      using m by metis
    then obtain months where "loan_months term (loan_amounts ! i) (interest_rates ! i) = Some months"
      and row: "row = map cf months"
      by (auto split: if_splits)
    then have "length months = term"
      by (auto simp: loan_months_def split: option.splits)
    then show "length row = term"
      using row by simp
  qed
qed

lemma length_sum_axis0 [simp]: "length (sum_axis0 term rows) = term"
  by (simp add: sum_axis0_def)

lemma nth_sum_axis0: "m < term \<Longrightarrow> sum_axis0 term rows ! m = (\<Sum>row\<leftarrow>rows. row ! m)"
  by (simp add: sum_axis0_def)

lemma sum_list_sum_axis0:
  assumes "\<forall>row \<in> set rows. length row = term"
  shows "sum_list (sum_axis0 term rows) = (\<Sum>row\<leftarrow>rows. sum_list row)"
  using assms
proof (induction rows)
  case Nil
  show ?case by (simp add: sum_axis0_def)
next
  case (Cons row rows)
  have l: "length row = term" using Cons.prems by simp
  have "sum_list (sum_axis0 term (row # rows)) =
          (\<Sum>m\<leftarrow>[0..<term]. row ! m) + sum_list (sum_axis0 term rows)"
    by (simp add: sum_axis0_def sum_list_addf)
  also have "(\<Sum>m\<leftarrow>[0..<term]. row ! m) = sum_list row"
    using map_nth[of row] l by simp
  finally show ?case
    using Cons by simp
qed

text \<open>
  C7. \<open>portfolio_cashflow\<close> has \<open>term\<close> entries, entry \<open>m\<close> being the sum over all
  loans of their schedule's entry \<open>m\<close>; \<open>total_cash\<close> is the sum of its entries, which is
  the sum of all entries of all schedules; \<open>total_principal\<close> is the sum of the loan
  principals.
\<close>

theorem portfolio_aggregation:
  assumes "loan_cashflows num term loan_amounts interest_rates = Some rows"
  shows "length (portfolio_cashflow (aggregate term loan_amounts rows)) = term
    \<and> (\<forall>m < term. portfolio_cashflow (aggregate term loan_amounts rows) ! m
                     = (\<Sum>row\<leftarrow>rows. row ! m))
    \<and> total_cash (aggregate term loan_amounts rows)
        = sum_list (portfolio_cashflow (aggregate term loan_amounts rows))
    \<and> total_cash (aggregate term loan_amounts rows) = (\<Sum>row\<leftarrow>rows. sum_list row)
    \<and> total_principal (aggregate term loan_amounts rows) = sum_list loan_amounts"
  using loan_cashflows_rows(2)[OF assms]
  by (simp add: aggregate_def Let_def nth_sum_axis0 sum_list_sum_axis0)

theorem portfolio_aggregation_witness:
  "loan_cashflows 2 1 [100, 200] [0.12, 0.12] = Some [[101], [202]]
   \<and> portfolio_cashflow (aggregate 1 [100, 200] [[101], [202]]) = [303]
   \<and> total_cash (aggregate 1 [100, 200] [[101], [202]]) = 303
   \<and> total_principal (aggregate 1 [100, 200] [[101], [202]]) = 300"
proof -
  have rows: "loan_cashflows 2 1 [100, 200] [0.12, 0.12] = Some [[101], [202]]"
    by (simp add: loan_cashflows_def loan_months_def monthly_payment_def loop_body_def
          Let_def power_int_minus eval_nat_numeral upt_rec)
  show ?thesis
    using rows portfolio_aggregation [OF rows]
    by (simp add: aggregate_def sum_axis0_def)
qed

text \<open>
  C6. The fractions are 0.70, 0.20 and 0.10 and add up to 1. A tranche's investment is
  \<open>total_principal\<close> times its fraction, its cash total \<open>total_cash\<close> times its
  fraction, and its cash-flow series has \<open>term\<close> entries, each
  \<open>(total_cash * fraction) / term\<close>. The three investments add up to
  \<open>total_principal\<close> and the three cash totals to \<open>total_cash\<close>.
\<close>

theorem tranche_allocation:
  "senior_pct = 0.70 \<and> mezzanine_pct = 0.20 \<and> equity_pct = 0.10
   \<and> senior_pct + mezzanine_pct + equity_pct = 1
   \<and> investment (tranche_of term tp tc pct) = tp * pct
   \<and> tranche_total_cash (tranche_of term tp tc pct) = tc * pct
   \<and> tranche_cf (tranche_of term tp tc pct) = replicate term (tc * pct / real term)
   \<and> investment (tranche_of term tp tc senior_pct)
       + investment (tranche_of term tp tc mezzanine_pct)
       + investment (tranche_of term tp tc equity_pct) = tp
   \<and> tranche_total_cash (tranche_of term tp tc senior_pct)
       + tranche_total_cash (tranche_of term tp tc mezzanine_pct)
       + tranche_total_cash (tranche_of term tp tc equity_pct) = tc"
  by (simp add: senior_pct_def mezzanine_pct_def equity_pct_def tranche_of_def)

subsection \<open>Internal rate of return\<close>

text \<open>
  C5. If the root-finder returns not-a-number, \<open>calculate_irr\<close> returns exactly 0;
  otherwise it returns the root-finder's rate, at which (the root-finder returning
  solutions only) the net present value of \<open>[-investment, cf[0], ..., cf[term-1]]\<close> is
  zero. The result is never not-a-number, and a failed search gives the same result as a
  rate of 0.
\<close>

theorem calculate_irr_masks_nan:
  assumes "\<forall>rate. npf_irr (- initial_investment # cf_series) = Some rate \<longrightarrow> rate \<in> irr_roots (- initial_investment # cf_series)"
  shows "(npf_irr (- initial_investment # cf_series) = None \<longrightarrow> calculate_irr npf_irr cf_series initial_investment = Some 0)
    \<and> (npf_irr (- initial_investment # cf_series) \<noteq> None \<longrightarrow>
         (\<exists>rate. calculate_irr npf_irr cf_series initial_investment = Some rate \<and> npv rate (- initial_investment # cf_series) = 0))
    \<and> calculate_irr npf_irr cf_series initial_investment \<noteq> None
    \<and> calculate_irr (\<lambda>values. None) cf_series initial_investment = calculate_irr (\<lambda>values. Some 0) cf_series initial_investment"
  using assms
  by (auto simp: calculate_irr_def Let_def irr_roots_def split: option.splits)

lemma npv_two: "npv rate [a, b] = a + b / (1 + rate)"
  by (simp add: npv_def upt_rec)

theorem calculate_irr_masks_nan_witness:
  "calculate_irr (\<lambda>values. if values = [- 700, 770] then Some (1 / 10) else None) [770] 700
     = Some (1 / 10)
   \<and> npv (1 / 10) [- 700, 770] = 0
   \<and> calculate_irr (\<lambda>values. if values = [- 700, 770] then Some (1 / 10) else None) [0] 700
     = Some 0"
proof -
  let ?solver = "\<lambda>values :: real list. if values = [- 700, 770] then Some (1 / 10 :: real) else None"
  have r: "(1 / 10 :: real) \<in> irr_roots (- 700 # [770])"
    by (simp add: irr_roots_def npv_two)
  have a: "\<forall>rate. ?solver (- 700 # [770]) = Some rate \<longrightarrow> rate \<in> irr_roots (- 700 # [770])"
  proof (intro allI impI)
    fix rate
    assume "?solver (- 700 # [770]) = Some rate"
    then have "rate = 1 / 10" by simp
    then show "rate \<in> irr_roots (- 700 # [770])" using r by blast
  qed
  have b: "\<forall>rate. ?solver (- 700 # [0]) = Some rate \<longrightarrow> rate \<in> irr_roots (- 700 # [0])"
    by simp
  show ?thesis
    using calculate_irr_masks_nan [of ?solver 700 "[770]", OF a]
      calculate_irr_masks_nan [of ?solver 700 "[0]", OF b]
    by (simp add: npv_two calculate_irr_def)
qed

lemma npv_scale: "npv rate (map ((*) c) values) = c * npv rate values"
proof -
  have eq: "map (\<lambda>t. map ((*) c) values ! t / (1 + rate) ^ t) [0..<length values] =
        map (\<lambda>t. c * (values ! t / (1 + rate) ^ t)) [0..<length values]"
    by simp
  show ?thesis
    unfolding npv_def length_map eq by (rule sum_list_const_mult)
qed

lemma irr_roots_scale:
  assumes "c \<noteq> 0"
  shows "irr_roots (map ((*) c) values) = irr_roots values"
  using assms by (simp add: irr_roots_def npv_scale)

lemma tranche_flows_scaled:
  "- investment (tranche_of term tp tc pct) # tranche_cf (tranche_of term tp tc pct) =
     map ((*) pct) (- tp # replicate term (tc / real term))"
  by (simp add: tranche_of_def mult.commute)

lemma irr_roots_one_period:
  assumes "0 < a" "0 < b"
  shows "irr_roots [- a, b] = {b / a - 1}"
proof -
  have "- a + b / (1 + rate) = 0 \<longleftrightarrow> rate = b / a - 1" if "- 1 < rate" for rate
  proof -
    have nz: "1 + rate \<noteq> 0" "a \<noteq> 0" using that assms by simp_all
    have "- a + b / (1 + rate) = 0 \<longleftrightarrow> b = a * (1 + rate)"
      using nz by (simp add: field_simps)
    also have "\<dots> \<longleftrightarrow> rate = b / a - 1"
      using nz by (auto simp: field_simps)
    finally show ?thesis .
  qed
  moreover have "- 1 < b / a - 1"
    using assms by simp
  ultimately show ?thesis
    by (auto simp: irr_roots_def npv_two)
qed

text \<open>
  C8. For a positive fraction, the signed cash flows of a tranche are those of the whole
  pool times the fraction, so the rates at which their net present value is zero are the
  same; a root-finder whose answer depends on these rates only gives \<open>calculate_irr\<close> the
  same result for every positive fraction, and so for the senior, mezzanine and equity
  tranches. With total principal 1000 and total cash 1100 over one month the only such
  rate is 10 percent, for the senior as for the equity tranche.
\<close>

theorem tranche_irr_independent_of_fraction:
  assumes "0 < pct"
  shows "irr_roots (- investment (tranche_of term tp tc pct) # tranche_cf (tranche_of term tp tc pct))
           = irr_roots (- tp # replicate term (tc / real term))
    \<and> calculate_irr (\<lambda>values. pick (irr_roots values))
          (tranche_cf (tranche_of term tp tc pct)) (investment (tranche_of term tp tc pct))
        = calculate_irr (\<lambda>values. pick (irr_roots values)) (replicate term (tc / real term)) tp
    \<and> calculate_irr (\<lambda>values. pick (irr_roots values))
          (tranche_cf (tranche_of term tp tc senior_pct))
          (investment (tranche_of term tp tc senior_pct))
        = calculate_irr (\<lambda>values. pick (irr_roots values))
          (tranche_cf (tranche_of term tp tc mezzanine_pct))
          (investment (tranche_of term tp tc mezzanine_pct))
    \<and> calculate_irr (\<lambda>values. pick (irr_roots values))
          (tranche_cf (tranche_of term tp tc mezzanine_pct))
          (investment (tranche_of term tp tc mezzanine_pct))
        = calculate_irr (\<lambda>values. pick (irr_roots values))
          (tranche_cf (tranche_of term tp tc equity_pct))
          (investment (tranche_of term tp tc equity_pct))
    \<and> irr_roots (- investment (tranche_of 1 1000 1100 senior_pct)
                   # tranche_cf (tranche_of 1 1000 1100 senior_pct)) = {1 / 10}
    \<and> irr_roots (- investment (tranche_of 1 1000 1100 equity_pct)
                   # tranche_cf (tranche_of 1 1000 1100 equity_pct)) = {1 / 10}"
proof -
  have roots: "irr_roots (- investment (tranche_of term tp tc c) # tranche_cf (tranche_of term tp tc c))
           = irr_roots (- tp # replicate term (tc / real term))" if "0 < c" for c
    unfolding tranche_flows_scaled using that by (intro irr_roots_scale) simp
  have irr: "calculate_irr (\<lambda>values. pick (irr_roots values))
          (tranche_cf (tranche_of term tp tc c)) (investment (tranche_of term tp tc c))
        = calculate_irr (\<lambda>values. pick (irr_roots values)) (replicate term (tc / real term)) tp"
    if "0 < c" for c
    using roots[OF that] by (simp add: calculate_irr_def)
  have pos: "0 < senior_pct" "0 < mezzanine_pct" "0 < equity_pct"
    by (simp_all add: senior_pct_def mezzanine_pct_def equity_pct_def)
  have s: "irr_roots (- investment (tranche_of 1 1000 1100 senior_pct)
                   # tranche_cf (tranche_of 1 1000 1100 senior_pct)) = {1 / 10}"
    using irr_roots_one_period[of 700 770]
    by (simp add: tranche_of_def senior_pct_def)
  have e: "irr_roots (- investment (tranche_of 1 1000 1100 equity_pct)
                   # tranche_cf (tranche_of 1 1000 1100 equity_pct)) = {1 / 10}"
    using irr_roots_one_period[of 100 110]
    by (simp add: tranche_of_def equity_pct_def)
  show ?thesis
    using roots[OF assms] irr[OF assms] irr[OF pos(1)] irr[OF pos(2)] irr[OF pos(3)] s e
    by simp
qed

theorem tranche_irr_independent_of_fraction_witness:
  "(0::real) < 7 / 10
   \<and> irr_roots (- investment (tranche_of 36 1000 1100 (7 / 10))
                  # tranche_cf (tranche_of 36 1000 1100 (7 / 10)))
       = irr_roots (- 1000 # replicate 36 (1100 / real (36::nat)))
   \<and> calculate_irr (\<lambda>values. if 0 \<in> irr_roots values then Some 0 else None)
          (tranche_cf (tranche_of 36 1000 1100 (7 / 10)))
          (investment (tranche_of 36 1000 1100 (7 / 10)))
       = calculate_irr (\<lambda>values. if 0 \<in> irr_roots values then Some 0 else None)
          (replicate 36 (1100 / real (36::nat))) 1000"
proof -
  have p: "(0::real) < 7 / 10" by simp
  show ?thesis
    using p tranche_irr_independent_of_fraction
      [OF p, of 36 1000 1100 "\<lambda>S. if 0 \<in> S then Some 0 else None"]
    by blast
qed

subsection \<open>The seeded run\<close>

lemma those_eq_None: "those xs = None \<longleftrightarrow> None \<in> set xs"
  by (induction xs) (auto split: option.splits)

lemma loan_months_defined:
  assumes "0 < annual_rate" "0 < n"
  shows "loan_months n amount annual_rate \<noteq> None"
  using payment_amortizes[OF assms, of amount] by (auto simp: loan_months_def)

lemma loan_cashflows_defined:
  assumes "length loan_amounts = num" "length interest_rates = num"
    and "\<forall>x \<in> set interest_rates. 0 < x" "0 < term"
  shows "loan_cashflows num term loan_amounts interest_rates \<noteq> None"
proof -
  let ?f = "\<lambda>i. if i < length loan_amounts \<and> i < length interest_rates
                 then map_option (map cf)
                        (loan_months term (loan_amounts ! i) (interest_rates ! i))
                 else None"
  have f: "?f i \<noteq> None" if "i < num" for i
  proof -
    have "interest_rates ! i \<in> set interest_rates"
      using that assms(2) by simp
    then have "0 < interest_rates ! i"
      using assms(3) by blast
    then have "loan_months term (loan_amounts ! i) (interest_rates ! i) \<noteq> None"
      using assms(4) by (intro loan_months_defined)
    then show ?thesis
      using that assms(1,2) by simp
  qed
  have "None \<notin> set (map ?f [0..<num])"
  proof
    assume "None \<in> set (map ?f [0..<num])"
    then have "None \<in> ?f ` {0..<num}"
      by (simp only: set_map set_upt)
    then obtain i where "i \<in> {0..<num}" "None = ?f i"
      by (rule imageE)
    then show False
      using f[of i] by simp
  qed
  then show ?thesis
    unfolding loan_cashflows_def those_eq_None .
qed

lemma draw_portfolio_range:
  assumes "uniform_in_range rng"
  shows "length (fst (draw_portfolio rng s)) = num_loans"
    and "length (snd (draw_portfolio rng s)) = num_loans"
    and "\<forall>x \<in> set (fst (draw_portfolio rng s)). 10000 \<le> x \<and> x < 50000"
    and "\<forall>x \<in> set (snd (draw_portfolio rng s)). 0.05 \<le> x \<and> x < 0.15"
proof -
  let ?s1 = "np_random_seed rng 42 s"
  let ?a = "np_random_uniform rng 10000 50000 num_loans ?s1"
  let ?b = "np_random_uniform rng 0.05 0.15 num_loans (snd ?a)"
  have d: "draw_portfolio rng s = (fst ?a, fst ?b)"
    by (simp add: draw_portfolio_def Let_def split_beta)
  have a: "length (fst ?a) = num_loans \<and> (\<forall>x \<in> set (fst ?a). 10000 \<le> x \<and> x < 50000)"
    using assms[unfolded uniform_in_range_def, rule_format, of 10000 50000 num_loans ?s1]
    by simp
  have b: "length (fst ?b) = num_loans \<and> (\<forall>x \<in> set (fst ?b). 0.05 \<le> x \<and> x < 0.15)"
    using assms[unfolded uniform_in_range_def, rule_format, of "0.05" "0.15" num_loans "snd ?a"]
    by simp
  show "length (fst (draw_portfolio rng s)) = num_loans"
    and "length (snd (draw_portfolio rng s)) = num_loans"
    and "\<forall>x \<in> set (fst (draw_portfolio rng s)). 10000 \<le> x \<and> x < 50000"
    and "\<forall>x \<in> set (snd (draw_portfolio rng s)). 0.05 \<le> x \<and> x < 0.15"
    unfolding d using a b by simp_all
qed

lemma script_defined:
  assumes "uniform_in_range rng"
  shows "script rng npf_irr s \<noteq> None"
proof -
  obtain la ir where d: "draw_portfolio rng s = (la, ir)"
    by (cases "draw_portfolio rng s")
  have "length la = num_loans" "length ir = num_loans" "\<forall>x \<in> set ir. 0 < x"
    using draw_portfolio_range[OF assms, of s] unfolding d by (simp, simp, fastforce)
  then have "loan_cashflows num_loans term_months la ir \<noteq> None"
    by (intro loan_cashflows_defined) (simp_all add: term_months_def)
  then show ?thesis
    by (auto simp: script_def d Let_def)
qed

text \<open>
  C9. The script seeds the random source with 42 before drawing. With a source whose state
  after seeding depends on the seed only, two runs, whatever state each starts from, draw
  the same loan principals and annual rates and produce the same report (totals, tranches
  and IRRs); with a source that draws within the given range, there are 100 principals in
  \<open>[10000, 50000)\<close> and 100 rates in \<open>[0.05, 0.15)\<close>, and the run does produce a report.
\<close>

theorem seeded_run_deterministic:
  assumes "reseeds rng" "uniform_in_range rng"
  shows "draw_portfolio rng s = draw_portfolio rng s'
    \<and> script rng npf_irr s = script rng npf_irr s'
    \<and> length (fst (draw_portfolio rng s)) = 100
    \<and> length (snd (draw_portfolio rng s)) = 100
    \<and> (\<forall>x \<in> set (fst (draw_portfolio rng s)). 10000 \<le> x \<and> x < 50000)
    \<and> (\<forall>x \<in> set (snd (draw_portfolio rng s)). 0.05 \<le> x \<and> x < 0.15)
    \<and> script rng npf_irr s \<noteq> None"
proof -
  have e: "np_random_seed rng 42 s = np_random_seed rng 42 s'"
    using assms(1) unfolding reseeds_def by blast
  have d: "draw_portfolio rng s = draw_portfolio rng s'"
    unfolding draw_portfolio_def e ..
  have r: "script rng npf_irr s = script rng npf_irr s'"
    unfolding script_def d ..
  show ?thesis
    using d r draw_portfolio_range[OF assms(2), of s] script_defined[OF assms(2), of npf_irr s]
    by (simp add: num_loans_def)
qed

lemma example_source_reseeds: "reseeds example_source"
  by (simp add: reseeds_def example_source_def)

lemma example_source_uniform: "uniform_in_range example_source"
proof -
  have "lo \<le> lo + (hi - lo) * real (m mod 10) / 10 \<and> lo + (hi - lo) * real (m mod 10) / 10 < hi"
    if "lo < hi" for lo hi :: real and m :: nat
  proof -
    have "real (m mod 10) < 10" by simp
    then have "(hi - lo) * real (m mod 10) < (hi - lo) * 10"
      using that by (intro mult_strict_left_mono) simp_all
    moreover have "0 \<le> (hi - lo) * real (m mod 10)"
      using that by simp
    ultimately show ?thesis by simp
  qed
  then show ?thesis
    by (auto simp: uniform_in_range_def example_source_def)
qed

theorem seeded_run_deterministic_witness:
  "reseeds example_source \<and> uniform_in_range example_source
   \<and> draw_portfolio example_source 0 = draw_portfolio example_source 7
   \<and> script example_source (\<lambda>values. None) 0 = script example_source (\<lambda>values. None) 7
   \<and> length (fst (draw_portfolio example_source 0)) = 100
   \<and> fst (draw_portfolio example_source 0) ! 0 = 18000
   \<and> script example_source (\<lambda>values. None) 0 \<noteq> None"
proof -
  have v: "fst (draw_portfolio example_source 0) ! 0 = 18000"
    by (simp add: draw_portfolio_def example_source_def num_loans_def Let_def)
  show ?thesis
    using example_source_reseeds example_source_uniform v
      seeded_run_deterministic [OF example_source_reseeds example_source_uniform,
        of 0 7 "\<lambda>values. None"]
    by blast
qed

end
